theory Spec2Isabelle
  imports Complex_Main
begin

section \<open>Errors raised by the Python code\<close>

text \<open>
  Every exception of the source is a value. \<open>TypeError\<close> is what the failing
  assertion of \<open>Mdp.__init__\<close> raises (its message concatenates a string with the
  integer timeout), \<open>ValueError\<close> is NumPy's answer to \<open>np.ones\<close> of a negative
  length, \<open>IndexError\<close> an index outside an array. \<open>ContractViolation\<close> marks the
  call the specification leaves undefined: the sampler on an empty weight vector.
\<close>

datatype error = TypeError | ValueError | IndexError | ContractViolation

section \<open>The random source\<close>

text \<open>
  The code reads NumPy's global random state. The model takes every draw as an argument:
  \<open>x\<close> is the uniform value in \<open>[0, 1)\<close> consumed by one call of the sampler and
  \<open>z\<close> the value of one \<open>np.random.randn()\<close>. Floating-point numbers are modelled
  as reals.
\<close>

section \<open>NumPy values\<close>

text \<open>
  What indexing a table returns depends on the index: \<open>r[s, u]\<close> is a number and
  \<open>P[s, u, :]\<close> a vector when \<open>s\<close> is a state index, but with \<open>None\<close> in place of
  \<open>s\<close>, as \<open>current_state\<close> is before the first \<open>reset\<close>, NumPy inserts a new axis
  and the results are arrays of two and three axes. A value is tagged with its number of
  axes; \<open>flat\<close> lists its entries in index (row-major) order.
\<close>

datatype ndarray =
    Array0 real
  | Array1 "real list"
  | Array2 "real list list"
  | Array3 "real list list list"

fun flat :: "ndarray \<Rightarrow> real list" where
  "flat (Array0 v) = [v]"
| "flat (Array1 row) = row"
| "flat (Array2 rows) = concat rows"
| "flat (Array3 block) = concat (concat block)"

text \<open>\<open>array + noise\<close> for a Python float: the number is added to every entry.\<close>

fun add_noise :: "ndarray \<Rightarrow> real \<Rightarrow> ndarray" where
  "add_noise (Array0 v) noise = Array0 (v + noise)"
| "add_noise (Array1 row) noise = Array1 (map (\<lambda>v. v + noise) row)"
| "add_noise (Array2 rows) noise = Array2 (map (map (\<lambda>v. v + noise)) rows)"
| "add_noise (Array3 block) noise = Array3 (map (map (map (\<lambda>v. v + noise))) block)"

section \<open>Discrete Sampler\<close>

text \<open>
  Modelled from the spec: \<open>mazemdp.toolbox.discreteProb\<close> is imported by
  \<open>mdp.py\<close> but its file is not among the sources. The specification (4.1) gives the
  algorithm: draw \<open>x\<close> uniformly in \<open>[0, 1)\<close>, accumulate the weights in index order,
  return the first index at which the cumulative sum exceeds \<open>x\<close>, and return the last
  index if the sum never strictly exceeds \<open>x\<close>. Its input has length at least one; the
  empty vector is outside the contract and yields no index. The specification speaks of
  vectors only; an array of more axes, which \<open>step\<close> passes before the first
  \<open>reset\<close>, is read entry by entry in index order (\<open>flat\<close>), the order in which its
  weights accumulate.
\<close>

fun first_exceeding :: "real \<Rightarrow> real \<Rightarrow> nat \<Rightarrow> real list \<Rightarrow> nat option" where
  "first_exceeding x acc i [] = None"
| "first_exceeding x acc i (w # ws) =
     (if x < acc + w then Some i else first_exceeding x (acc + w) (Suc i) ws)"

definition discreteProb :: "real list \<Rightarrow> real \<Rightarrow> error + nat" where
  "discreteProb weights x =
     (if weights = [] then Inl ContractViolation
      else case first_exceeding x 0 0 weights of
             Some i \<Rightarrow> Inr i
           | None \<Rightarrow> Inr (length weights - 1))"

section \<open>NumPy helpers used by the source\<close>

text \<open>\<open>np.ones(n) / n\<close>: \<open>np.ones\<close> raises on a negative length; for \<open>n = 0\<close> the
  array is empty and nothing is divided.\<close>

definition ones_over :: "int \<Rightarrow> error + real list" where
  "ones_over n =
     (if n < 0 then Inl ValueError
      else Inr (replicate (nat n) (1 / real_of_int n)))"

text \<open>One axis of NumPy indexing with a Python integer: a negative index counts from
  the end, anything outside \<open>[-n, n)\<close> raises.\<close>

definition np_index :: "nat \<Rightarrow> int \<Rightarrow> error + nat" where
  "np_index n i =
     (if 0 \<le> i \<and> i < int n then Inr (nat i)
      else if - int n \<le> i \<and> i < 0 then Inr (nat (int n + i))
      else Inl IndexError)"

text \<open>\<open>tab[s, u]\<close> for a state index \<open>s\<close> and an action \<open>u\<close>; applied to the
  transition tensor it is the row \<open>P[s, u, :]\<close>.\<close>

definition index2 :: "'a list list \<Rightarrow> nat \<Rightarrow> int \<Rightarrow> error + 'a" where
  "index2 tab s u =
     (if s < length tab then
        (case np_index (length (tab ! s)) u of
           Inl e \<Rightarrow> Inl e
         | Inr a \<Rightarrow> Inr (tab ! s ! a))
      else Inl IndexError)"

text \<open>\<open>tab[None, u]\<close>: \<open>None\<close> is \<open>np.newaxis\<close>, so \<open>u\<close> indexes the first axis of
  \<open>tab\<close> and the result is \<open>tab[u]\<close> under one new leading axis of length one.\<close>

definition index_newaxis :: "'a list \<Rightarrow> int \<Rightarrow> error + 'a list" where
  "index_newaxis tab u =
     (case np_index (length tab) u of
        Inl e \<Rightarrow> Inl e
      | Inr a \<Rightarrow> Inr [tab ! a])"

text \<open>\<open>r[current_state, u]\<close> and \<open>P[current_state, u, :]\<close> as \<open>step\<close> writes them,
  for either value of \<open>current_state\<close>.\<close>

definition r_item :: "real list list \<Rightarrow> nat option \<Rightarrow> int \<Rightarrow> error + ndarray" where
  "r_item tab cs u =
     (case cs of
        Some s \<Rightarrow> (case index2 tab s u of Inl e \<Rightarrow> Inl e | Inr v \<Rightarrow> Inr (Array0 v))
      | None \<Rightarrow> (case index_newaxis tab u of Inl e \<Rightarrow> Inl e | Inr rows \<Rightarrow> Inr (Array2 rows)))"

definition P_row :: "real list list list \<Rightarrow> nat option \<Rightarrow> int \<Rightarrow> error + ndarray" where
  "P_row tab cs u =
     (case cs of
        Some s \<Rightarrow> (case index2 tab s u of Inl e \<Rightarrow> Inl e | Inr row \<Rightarrow> Inr (Array1 row))
      | None \<Rightarrow>
          (case index_newaxis tab u of Inl e \<Rightarrow> Inl e | Inr block \<Rightarrow> Inr (Array3 block)))"

text \<open>\<open>xs[index]\<close> for an index returned by the sampler.\<close>

definition getitem :: "'a list \<Rightarrow> nat \<Rightarrow> error + 'a" where
  "getitem xs index = (if index < length xs then Inr (xs ! index) else Inl IndexError)"

section \<open>SimpleActionSpace\<close>

text \<open>An action is either an integer produced by \<open>np.arange\<close> or an identifier of the
  caller's list. \<open>np.arange(n)\<close> is \<open>0, ..., n - 1\<close>, empty when \<open>n \<le> 0\<close>. The field
  \<open>size\<close> of the source is \<open>size'\<close> here.\<close>

datatype 'a action = Arange int | Listed 'a

record 'a SimpleActionSpace =
  actions :: "'a action list"
  size' :: int

definition SimpleActionSpace_init :: "'a list option \<Rightarrow> int \<Rightarrow> 'a SimpleActionSpace" where
  "SimpleActionSpace_init action_list nactions =
     (let acts = (case action_list of
                    None \<Rightarrow> map Arange [0 .. nactions - 1]
                  | Some al \<Rightarrow>
                      if length al = 0 then map Arange [0 .. nactions - 1]
                      else map Listed al)
      in \<lparr>actions = acts, size' = int (length acts)\<rparr>)"

definition sample :: "'a SimpleActionSpace \<Rightarrow> real list option \<Rightarrow> real \<Rightarrow> error + 'a action" where
  "sample sp prob_list x =
     (case (case prob_list of None \<Rightarrow> ones_over (size' sp) | Some pl \<Rightarrow> Inr pl) of
        Inl e \<Rightarrow> Inl e
      | Inr pl \<Rightarrow>
          (case discreteProb pl x of
             Inl e \<Rightarrow> Inl e
           | Inr index \<Rightarrow> getitem (actions sp) index))"

section \<open>Mdp\<close>

record ('a, 'pl) Mdp =
  nb_states :: int
  terminal_states :: "nat list"
  action_space :: "'a SimpleActionSpace"
  has_state :: bool
  timeout :: int
  timestep :: int
  P0 :: "real list"
  P :: "real list list list"
  r :: "real list list"
  plotter :: 'pl
  gamma :: real
  current_state :: "nat option"
  last_action_achieved :: "bool option"

text \<open>
  \<open>Mdp.__init__\<close>. The assertion \<open>timeout > 10\<close> comes first; when it fails, its
  message \<open>"timeout too short:" + timeout\<close> is evaluated and raises, so no object is
  produced. \<open>last_action_achieved\<close> is not assigned by the constructor: \<open>None\<close> stands
  for the missing attribute, as it does for \<open>current_state = None\<close>. The source's
  defaults are \<open>gamma=0.9\<close>, \<open>terminal_states=None\<close>, \<open>timeout=50\<close> and
  \<open>has_state=True\<close>; here every argument is given.
\<close>

definition Mdp_init ::
  "int \<Rightarrow> 'a SimpleActionSpace \<Rightarrow> real list \<Rightarrow> real list list list \<Rightarrow> real list list \<Rightarrow> 'pl
    \<Rightarrow> real \<Rightarrow> nat list option \<Rightarrow> int \<Rightarrow> bool \<Rightarrow> error + ('a, 'pl) Mdp" where
  "Mdp_init nb_states' action_space' start_distribution transition_matrix reward_matrix
     plotter' gamma' terminal_states' timeout' has_state' =
     (if \<not> timeout' > 10 then Inl TypeError
      else Inr \<lparr>nb_states = nb_states',
                terminal_states = (case terminal_states' of None \<Rightarrow> [] | Some ts \<Rightarrow> ts),
                action_space = action_space',
                has_state = has_state',
                timeout = timeout',
                timestep = 0,
                P0 = start_distribution,
                P = transition_matrix,
                r = reward_matrix,
                plotter = plotter',
                gamma = gamma',
                current_state = None,
                last_action_achieved = None\<rparr>)"

text \<open>\<open>Mdp.reset\<close>: returns the sampled state and the engine after the call. When the
  sampler or \<open>np.ones\<close> raises, no field has been assigned yet.\<close>

definition reset :: "('a, 'pl) Mdp \<Rightarrow> bool \<Rightarrow> real \<Rightarrow> error + (nat \<times> ('a, 'pl) Mdp)" where
  "reset m uniform x =
     (case (if uniform then
              (case ones_over (nb_states m - 1) of
                 Inl e \<Rightarrow> Inl e
               | Inr prob \<Rightarrow> discreteProb prob x)
            else discreteProb (P0 m) x) of
        Inl e \<Rightarrow> Inl e
      | Inr s \<Rightarrow>
          (let m1 = m\<lparr>current_state := Some s\<rparr>;
               m2 = m1\<lparr>timestep := 0\<rparr>;
               m3 = m2\<lparr>last_action_achieved := Some False\<rparr>
           in Inr (the (current_state m3), m3)))"

text \<open>\<open>Mdp.done\<close>: the answer and the engine after the call. \<open>None in terminal_states\<close>
  is false for a list of state indices.\<close>

definition "done" :: "('a, 'pl) Mdp \<Rightarrow> bool \<times> ('a, 'pl) Mdp" where
  "done m =
     (if (case current_state m of None \<Rightarrow> False | Some s \<Rightarrow> s \<in> set (terminal_states m))
      then (True, m)
      else (timestep m = timeout m, m))"

record step_info =
  transition_probabilities :: ndarray
  noise_value :: real

record step_result =
  next_state :: nat
  reward :: ndarray
  done_flag :: bool
  info :: step_info

text \<open>
  \<open>Mdp.step\<close>, statement by statement: the noise, the reward of the pre-update state,
  the sampled successor, the timestep, the diagnostics (the row is read a second time,
  while \<open>current_state\<close> is still the old one), the new state, the completion test. An
  exception leaves the engine as it was: both lookups and the sampler come before the
  first assignment. The source does not test whether the engine has been reset: with
  \<open>current_state = None\<close> the same statements run on the arrays that the \<open>None\<close>
  index produces.
\<close>

definition step ::
  "('a, 'pl) Mdp \<Rightarrow> int \<Rightarrow> real \<Rightarrow> real \<Rightarrow> real \<Rightarrow> error + (step_result \<times> ('a, 'pl) Mdp)" where
  "step m u deviation z x =
     (let noise = deviation * z in
      case r_item (r m) (current_state m) u of
        Inl e \<Rightarrow> Inl e
      | Inr ru \<Rightarrow>
          (let reward' = add_noise ru noise in
           case P_row (P m) (current_state m) u of
             Inl e \<Rightarrow> Inl e
           | Inr probs \<Rightarrow>
               (case discreteProb (flat probs) x of
                  Inl e \<Rightarrow> Inl e
                | Inr next_state' \<Rightarrow>
                    (let m1 = m\<lparr>timestep := timestep m + 1\<rparr> in
                     case P_row (P m1) (current_state m1) u of
                       Inl e \<Rightarrow> Inl e
                     | Inr probs' \<Rightarrow>
                         (let info' = \<lparr>transition_probabilities = probs',
                                       noise_value = noise\<rparr>;
                              m2 = m1\<lparr>current_state := Some next_state'\<rparr>;
                              (d, m3) = done m2
                          in Inr (\<lparr>next_state = next_state', reward = reward',
                                   done_flag = d, info = info'\<rparr>, m3))))))"

section \<open>Rendering\<close>

text \<open>
  The plotter is an external object. \<open>Mdp.render\<close> returns whatever
  \<open>plotter.render\<close> returns, so the model returns the call it makes: the keyword
  arguments, each either passed or left out. The source passes \<open>agent_state=None\<close>
  explicitly in its first branch and leaves the argument out in its last one.
\<close>

datatype 'x arg = Omitted | Passed 'x

datatype 'p agent_state = StateIndex nat | Position 'p

record ('v, 'q, 'p) render_call =
  v_arg :: "'v list"
  agent_state_arg :: "'p agent_state option arg"
  policy_arg :: "'q list arg"
  title_arg :: string
  mode_arg :: string

definition render ::
  "('a, 'pl) Mdp \<Rightarrow> 'v list option \<Rightarrow> 'q list option \<Rightarrow> 'p option \<Rightarrow> string \<Rightarrow> string
    \<Rightarrow> ('v, 'q, 'p) render_call" where
  "render m v policy agent_pos title mode =
     (let v1 = (case v of None \<Rightarrow> [] | Some a \<Rightarrow> a);
          policy1 = (case policy of None \<Rightarrow> [] | Some a \<Rightarrow> a)
      in if \<not> has_state m then
           \<lparr>v_arg = v1, agent_state_arg = Passed None, policy_arg = Omitted,
            title_arg = title, mode_arg = mode\<rparr>
         else if agent_pos \<noteq> None then
           \<lparr>v_arg = v1, agent_state_arg = Passed (Some (Position (the agent_pos))),
            policy_arg = Omitted, title_arg = title, mode_arg = mode\<rparr>
         else if current_state m \<noteq> None then
           \<lparr>v_arg = v1, agent_state_arg = Passed (Some (StateIndex (the (current_state m)))),
            policy_arg = Passed policy1, title_arg = title, mode_arg = mode\<rparr>
         else
           \<lparr>v_arg = v1, agent_state_arg = Omitted, policy_arg = Omitted,
            title_arg = title, mode_arg = mode\<rparr>)"

text \<open>What reaches the renderer: the agent state, if any, and the policy, if any.\<close>

definition forwarded_agent_state :: "('v, 'q, 'p) render_call \<Rightarrow> 'p agent_state option" where
  "forwarded_agent_state c = (case agent_state_arg c of Omitted \<Rightarrow> None | Passed a \<Rightarrow> a)"

definition forwarded_policy :: "('v, 'q, 'p) render_call \<Rightarrow> 'q list option" where
  "forwarded_policy c = (case policy_arg c of Omitted \<Rightarrow> None | Passed p \<Rightarrow> Some p)"

section \<open>Episodes\<close>

text \<open>A caller's loop of \<open>step\<close> calls: each element of the list holds the action, the
  deviation and the two random draws of one call. The results come back in call order;
  the first exception ends the run.\<close>

fun run ::
  "('a, 'pl) Mdp \<Rightarrow> (int \<times> real \<times> real \<times> real) list
    \<Rightarrow> error + (step_result list \<times> ('a, 'pl) Mdp)" where
  "run m [] = Inr ([], m)"
| "run m ((u, deviation, z, x) # calls) =
     (case step m u deviation z x of
        Inl e \<Rightarrow> Inl e
      | Inr (res, m1) \<Rightarrow>
          (case run m1 calls of
             Inl e \<Rightarrow> Inl e
           | Inr (results, m2) \<Rightarrow> Inr (res # results, m2)))"

section \<open>A small maze\<close>

text \<open>Three states and two actions; state 2 is terminal. \<open>maze T t cs\<close> is the engine
  with timeout \<open>T\<close> at timestep \<open>t\<close> in state \<open>cs\<close>.\<close>


definition maze_P :: "real list list list" where
  "maze_P = [[[1/2, 1/2, 0], [0, 1, 0]],
             [[1, 0, 0], [0, 0, 1]],
             [[0, 0, 1], [0, 0, 1]]]"

definition maze_r :: "real list list" where
  "maze_r = [[0, 1/4], [1/2, 1], [0, 0]]"

definition maze :: "int \<Rightarrow> int \<Rightarrow> nat option \<Rightarrow> (unit, unit) Mdp" where
  "maze T t cs =
     \<lparr>nb_states = 3, terminal_states = [2], action_space = SimpleActionSpace_init None 2,
      has_state = True, timeout = T, timestep = t, P0 = [1, 0, 0], P = maze_P, r = maze_r,
      plotter = (), gamma = 9/10, current_state = cs,
      last_action_achieved = (if cs = None then None else Some False)\<rparr>"

text \<open>The results of \<open>n\<close> calls \<open>step(0)\<close> without noise that stay in state 0, the first
  one made at timestep \<open>t\<close>.\<close>


fun stay_results :: "int \<Rightarrow> int \<Rightarrow> nat \<Rightarrow> step_result list" where
  "stay_results T t 0 = []"
| "stay_results T t (Suc n) =
     \<lparr>next_state = 0, reward = Array0 0, done_flag = (t + 1 = T),
      info = \<lparr>transition_probabilities = Array1 [1/2, 1/2, 0], noise_value = 0\<rparr>\<rparr>
     # stay_results T (t + 1) n"

text \<open>An action space of three named actions.\<close>

definition compass :: "string SimpleActionSpace" where
  "compass = SimpleActionSpace_init (Some [''north'', ''south'', ''east'']) 0"

section \<open>The sampler's range\<close>

lemma first_exceeding_bound:
  "first_exceeding x acc i ws = Some j \<Longrightarrow> i \<le> j \<and> j < i + length ws"
proof (induction ws arbitrary: acc i)
  case Nil
  then show ?case by simp
next
  case (Cons w ws)
  show ?case
  proof (cases "x < acc + w")
    case True
    with Cons.prems show ?thesis by simp
  next
    case False
    with Cons.prems have "first_exceeding x (acc + w) (Suc i) ws = Some j" by simp
    from Cons.IH [OF this] show ?thesis by simp
  qed
qed

lemma discreteProb_range: "discreteProb ws x = Inr i \<Longrightarrow> i < length ws"
  by (auto simp: discreteProb_def split: if_splits option.splits dest: first_exceeding_bound)

lemma discreteProb_total: "ws \<noteq> [] \<Longrightarrow> \<exists>i. discreteProb ws x = Inr i"
  by (simp add: discreteProb_def split: option.splits)

section \<open>Facts about \<open>done\<close>, \<open>step\<close> and the maze\<close>

lemma done_snd: "snd (done m) = m"
  by (simp add: done_def)

lemma done_fst:
  "fst (done m) =
     ((case current_state m of None \<Rightarrow> False | Some s \<Rightarrow> s \<in> set (terminal_states m))
      \<or> timestep m = timeout m)"
  by (simp add: done_def)

lemma step_Inr_iff:
  "step m u deviation z x = Inr (res, m') \<longleftrightarrow>
     (case current_state m of
        Some s \<Rightarrow>
          (\<exists>ru row ns.
             index2 (r m) s u = Inr ru \<and> index2 (P m) s u = Inr row \<and>
             discreteProb row x = Inr ns \<and>
             m' = m\<lparr>timestep := timestep m + 1, current_state := Some ns\<rparr> \<and>
             res = \<lparr>next_state = ns, reward = Array0 (ru + deviation * z),
                    done_flag = fst (done m'),
                    info = \<lparr>transition_probabilities = Array1 row,
                            noise_value = deviation * z\<rparr>\<rparr>)
      | None \<Rightarrow>
          (\<exists>rows block ns.
             index_newaxis (r m) u = Inr rows \<and> index_newaxis (P m) u = Inr block \<and>
             discreteProb (concat (concat block)) x = Inr ns \<and>
             m' = m\<lparr>timestep := timestep m + 1, current_state := Some ns\<rparr> \<and>
             res = \<lparr>next_state = ns,
                    reward = Array2 (map (map (\<lambda>v. v + deviation * z)) rows),
                    done_flag = fst (done m'),
                    info = \<lparr>transition_probabilities = Array3 block,
                            noise_value = deviation * z\<rparr>\<rparr>))"
  by (auto simp: step_def r_item_def P_row_def Let_def done_def
           split: option.splits sum.splits prod.splits)

lemma step_frame:
  "step m u deviation z x = Inr (res, m') \<Longrightarrow>
     m' = m\<lparr>timestep := timestep m + 1, current_state := Some (next_state res)\<rparr>"
  by (auto simp: step_Inr_iff split: option.splits)

lemma step_done_flag:
  "step m u deviation z x = Inr (res, m') \<Longrightarrow> done_flag res = fst (done m')"
  by (auto simp: step_Inr_iff split: option.splits)

lemma step_sampled:
  "step m u deviation z x = Inr (res, m') \<Longrightarrow>
     \<exists>probs. P_row (P m) (current_state m) u = Inr probs \<and>
             discreteProb (flat probs) x = Inr (next_state res)"
  by (auto simp: step_Inr_iff P_row_def split: option.splits)

lemma step_returns_after_reset:
  assumes "current_state m = Some s" and "index2 (r m) s u = Inr ru"
    and "index2 (P m) s u = Inr row" and "row \<noteq> []"
  shows "\<exists>res m'. step m u deviation z x = Inr (res, m')"
proof -
  from discreteProb_total [OF assms(4), of x] obtain ns where
    "discreteProb row x = Inr ns" ..
  with assms(1,2,3) show ?thesis by (simp add: step_Inr_iff)
qed

lemma step_returns_before_reset:
  assumes "current_state m = None" and "index_newaxis (r m) u = Inr rows"
    and "index_newaxis (P m) u = Inr block" and "concat (concat block) \<noteq> []"
  shows "\<exists>res m'. step m u deviation z x = Inr (res, m')"
proof -
  from discreteProb_total [OF assms(4), of x] obtain ns where
    "discreteProb (concat (concat block)) x = Inr ns" ..
  with assms(1,2,3) show ?thesis by (simp add: step_Inr_iff)
qed

lemma maze_step_stay:
  "step (maze T t (Some 0)) 0 d z (1/4) =
     Inr (\<lparr>next_state = 0, reward = Array0 (d * z), done_flag = (t + 1 = T),
           info = \<lparr>transition_probabilities = Array1 [1/2, 1/2, 0], noise_value = d * z\<rparr>\<rparr>,
          maze T (t + 1) (Some 0))"
  by (simp add: step_Inr_iff maze_def maze_P_def maze_r_def index2_def np_index_def
        discreteProb_def done_fst)

lemma maze_reset: "reset (maze T t cs) False (1/4) = Inr (0, maze T 0 (Some 0))"
  by (simp add: reset_def maze_def discreteProb_def)

lemma maze_init:
  "Mdp_init 3 (SimpleActionSpace_init None 2) [1, 0, 0] maze_P maze_r () (9/10) (Some [2]) 11 True
     = Inr (maze 11 0 None)"
  by (simp add: Mdp_init_def maze_def)

section \<open>Facts about \<open>reset\<close> and runs of \<open>step\<close>\<close>

lemma reset_Inr_iff:
  "reset m uniform x = Inr (s, m') \<longleftrightarrow>
     (if uniform then
        (\<exists>prob. ones_over (nb_states m - 1) = Inr prob \<and> discreteProb prob x = Inr s)
      else discreteProb (P0 m) x = Inr s)
     \<and> m' = m\<lparr>current_state := Some s, timestep := 0, last_action_achieved := Some False\<rparr>"
  by (auto simp: reset_def Let_def split: sum.splits)

lemma run_Cons_Inr_iff:
  "run m (c # calls) = Inr (results, m') \<longleftrightarrow>
     (\<exists>res m1 rs. step m (fst c) (fst (snd c)) (fst (snd (snd c))) (snd (snd (snd c)))
                     = Inr (res, m1)
        \<and> run m1 calls = Inr (rs, m') \<and> results = res # rs)"
  by (cases c) (auto split: sum.splits)

lemma run_frame:
  "run m calls = Inr (results, m') \<Longrightarrow>
     length results = length calls \<and> timestep m' = timestep m + int (length calls) \<and>
     timeout m' = timeout m \<and> terminal_states m' = terminal_states m"
proof (induction calls arbitrary: m results)
  case Nil
  then show ?case by simp
next
  case (Cons c calls)
  from Cons.prems obtain res m1 rs where
    st: "step m (fst c) (fst (snd c)) (fst (snd (snd c))) (snd (snd (snd c))) = Inr (res, m1)"
    and rn: "run m1 calls = Inr (rs, m')" and rs: "results = res # rs"
    unfolding run_Cons_Inr_iff by blast
  from st have
    "timestep m1 = timestep m + 1" "timeout m1 = timeout m"
    "terminal_states m1 = terminal_states m"
    by (auto simp: step_Inr_iff split: option.splits)
  with Cons.IH [OF rn] rs show ?case by simp
qed

lemma run_end:
  "run m calls = Inr (results, m') \<Longrightarrow> calls \<noteq> [] \<Longrightarrow>
     results \<noteq> [] \<and> current_state m' = Some (next_state (last results)) \<and>
     done_flag (last results) = fst (done m')"
proof (induction calls arbitrary: m results)
  case Nil
  then show ?case by simp
next
  case (Cons c calls)
  from Cons.prems(1) obtain res m1 rs where
    st: "step m (fst c) (fst (snd c)) (fst (snd (snd c))) (snd (snd (snd c))) = Inr (res, m1)"
    and rn: "run m1 calls = Inr (rs, m')" and rs: "results = res # rs"
    unfolding run_Cons_Inr_iff by blast
  show ?case
  proof (cases "calls = []")
    case True
    with rn have "rs = []" "m' = m1" by simp_all
    with st rs step_frame [OF st] step_done_flag [OF st] show ?thesis by simp
  next
    case False
    from Cons.IH [OF rn False] rs show ?thesis by simp
  qed
qed

lemma run_prefix:
  "run m (as @ bs) = Inr (results, m') \<Longrightarrow>
     \<exists>mk. run m as = Inr (take (length as) results, mk)"
proof (induction as arbitrary: m results)
  case Nil
  then show ?case by simp
next
  case (Cons c as)
  from Cons.prems obtain res m1 rs where
    st: "step m (fst c) (fst (snd c)) (fst (snd (snd c))) (snd (snd (snd c))) = Inr (res, m1)"
    and rn: "run m1 (as @ bs) = Inr (rs, m')" and rs: "results = res # rs"
    unfolding append_Cons run_Cons_Inr_iff by blast
  from Cons.IH [OF rn] obtain mk where "run m1 as = Inr (take (length as) rs, mk)" ..
  with st rs show ?case by (simp add: run_Cons_Inr_iff)
qed


lemma length_stay_results: "length (stay_results T t n) = n"
  by (induction n arbitrary: t) auto

lemma stay_results_next_state: "res \<in> set (stay_results T t n) \<Longrightarrow> next_state res = 0"
  by (induction n arbitrary: t) auto

lemma map_next_state_stay_results: "map next_state (stay_results T t n) = replicate n 0"
  by (induction n arbitrary: t) auto

lemma maze_run_stay:
  "run (maze T t (Some 0)) (replicate n (0, 0, 0, 1/4)) =
     Inr (stay_results T t n, maze T (t + int n) (Some 0))"
proof (induction n arbitrary: t)
  case 0
  show ?case by simp
next
  case (Suc n)
  have "step (maze T t (Some 0)) 0 0 0 (1/4) =
     Inr (\<lparr>next_state = 0, reward = Array0 0, done_flag = (t + 1 = T),
           info = \<lparr>transition_probabilities = Array1 [1/2, 1/2, 0], noise_value = 0\<rparr>\<rparr>,
          maze T (t + 1) (Some 0))"
    using maze_step_stay [of T t 0 0] by simp
  with Suc.IH [of "t + 1"] show ?case by (simp add: add.assoc)
qed

section \<open>Facts about the helpers and the examples\<close>

lemma ones_over_Inr_iff:
  "ones_over n = Inr prob \<longleftrightarrow> 0 \<le> n \<and> prob = replicate (nat n) (1 / real_of_int n)"
  by (auto simp: ones_over_def)

lemma SimpleActionSpace_init_size:
  "size' (SimpleActionSpace_init action_list nactions)
     = int (length (actions (SimpleActionSpace_init action_list nactions)))"
  by (simp add: SimpleActionSpace_init_def Let_def)

lemma getitem_member: "i < length xs \<Longrightarrow> getitem xs i \<in> Inr ` set xs"
  by (simp add: getitem_def)

lemma compass_fields:
  "actions compass = [Listed ''north'', Listed ''south'', Listed ''east'']" "size' compass = 3"
  by (simp_all add: compass_def SimpleActionSpace_init_def)

lemma maze_step_go:
  "step (maze T t (Some 1)) 1 d z (1/4) =
     Inr (\<lparr>next_state = 2, reward = Array0 (1 + d * z), done_flag = True,
           info = \<lparr>transition_probabilities = Array1 [0, 0, 1], noise_value = d * z\<rparr>\<rparr>,
          maze T (t + 1) (Some 2))"
  by (simp add: step_Inr_iff maze_def maze_P_def maze_r_def index2_def np_index_def
        discreteProb_def done_fst)

lemma maze_step_fresh:
  "step (maze 11 0 None) 0 0 0 (7/10) =
     Inr (\<lparr>next_state = 1, reward = Array2 [[0, 1/4]], done_flag = False,
           info = \<lparr>transition_probabilities = Array3 [[[1/2, 1/2, 0], [0, 1, 0]]],
                   noise_value = 0\<rparr>\<rparr>,
          (maze 11 0 None)\<lparr>timestep := 1, current_state := Some 1\<rparr>)"
  by (simp add: step_Inr_iff maze_def maze_P_def maze_r_def index_newaxis_def np_index_def
        discreteProb_def done_fst)

lemma maze_reset_uniform:
  "reset (maze T t cs) True (7/10) = Inr (1, maze T 0 (Some 1))"
  by (simp add: reset_def maze_def ones_over_def discreteProb_def numeral_2_eq_2)

section \<open>Claims\<close>

text \<open>
  C1. Every \<open>step\<close> call that returns has incremented \<open>timestep\<close> by one and set
  \<open>current_state\<close> to the state sampled from \<open>P[current_state, u, :]\<close> before the
  completion test: the flag it returns is \<open>done()\<close> of the engine after the call, true
  exactly when the new state is terminal or the new timestep equals the timeout. On an
  engine that has been reset, with indices inside the tables and a non-empty row, the call
  returns.
\<close>

theorem step_done_on_new_state:
  "(step m u deviation z x = Inr (res, m') \<longrightarrow>
      timestep m' = timestep m + 1 \<and>
      current_state m' = Some (next_state res) \<and>
      (\<exists>probs. P_row (P m) (current_state m) u = Inr probs \<and>
               discreteProb (flat probs) x = Inr (next_state res)) \<and>
      (\<forall>s. current_state m = Some s \<longrightarrow>
           (\<exists>row. index2 (P m) s u = Inr row \<and>
                  discreteProb row x = Inr (next_state res))) \<and>
      done_flag res = fst (done m') \<and>
      done_flag res = (next_state res \<in> set (terminal_states m') \<or> timestep m' = timeout m'))
   \<and> (current_state m = Some s0 \<and> index2 (r m) s0 u = Inr ru \<and>
        index2 (P m) s0 u = Inr row0 \<and> row0 \<noteq> [] \<longrightarrow>
        (\<exists>res1 m1. step m u deviation z x = Inr (res1, m1)))"
proof (intro conjI impI allI)
  assume st: "step m u deviation z x = Inr (res, m')"
  note m' = step_frame [OF st]
  note df = step_done_flag [OF st]
  show "timestep m' = timestep m + 1" by (subst m') simp
  show cs': "current_state m' = Some (next_state res)" by (subst m') simp
  show "\<exists>probs. P_row (P m) (current_state m) u = Inr probs \<and>
               discreteProb (flat probs) x = Inr (next_state res)"
    by (rule step_sampled [OF st])
  show "done_flag res = fst (done m')" by (rule df)
  show "done_flag res = (next_state res \<in> set (terminal_states m') \<or> timestep m' = timeout m')"
    by (simp add: df done_fst cs')
  fix s
  assume "current_state m = Some s"
  with st show "\<exists>row. index2 (P m) s u = Inr row \<and> discreteProb row x = Inr (next_state res)"
    by (auto simp: step_Inr_iff)
next
  assume "current_state m = Some s0 \<and> index2 (r m) s0 u = Inr ru \<and>
        index2 (P m) s0 u = Inr row0 \<and> row0 \<noteq> []"
  then show "\<exists>res1 m1. step m u deviation z x = Inr (res1, m1)"
    by (blast intro: step_returns_after_reset)
qed

theorem step_done_on_new_state_witness:
  "step (maze 11 10 (Some 0)) 0 0 0 (1/4) =
     Inr (\<lparr>next_state = 0, reward = Array0 0, done_flag = True,
           info = \<lparr>transition_probabilities = Array1 [1/2, 1/2, 0], noise_value = 0\<rparr>\<rparr>,
          maze 11 11 (Some 0))
   \<and> timestep (maze 11 11 (Some 0)) = timestep (maze 11 10 (Some 0)) + 1
   \<and> fst (done (maze 11 11 (Some 0)))
   \<and> current_state (maze 11 10 (Some 0)) = Some 0
   \<and> index2 (r (maze 11 10 (Some 0))) 0 0 = Inr 0
   \<and> index2 (P (maze 11 10 (Some 0))) 0 0 = Inr [1/2, 1/2, 0]
   \<and> (\<exists>res1 m1. step (maze 11 10 (Some 0)) 0 0 0 (1/4) = Inr (res1, m1))"
proof -
  have h: "step (maze 11 10 (Some 0)) 0 0 0 (1/4) =
     Inr (\<lparr>next_state = 0, reward = Array0 0, done_flag = True,
           info = \<lparr>transition_probabilities = Array1 [1/2, 1/2, 0], noise_value = 0\<rparr>\<rparr>,
          maze 11 11 (Some 0))"
    using maze_step_stay [of 11 10 0 0] by simp
  have v: "current_state (maze 11 10 (Some 0)) = Some 0
      \<and> index2 (r (maze 11 10 (Some 0))) 0 0 = Inr 0
      \<and> index2 (P (maze 11 10 (Some 0))) 0 0 = Inr [1/2, 1/2, 0]"
    by (simp add: maze_def maze_P_def maze_r_def index2_def np_index_def)
  from h v step_done_on_new_state [of "maze 11 10 (Some 0)" 0 0 0 "1/4"
      "\<lparr>next_state = 0, reward = Array0 0, done_flag = True,
           info = \<lparr>transition_probabilities = Array1 [1/2, 1/2, 0], noise_value = 0\<rparr>\<rparr>"
      "maze 11 11 (Some 0)" 0 0 "[1/2, 1/2, 0]"]
  show ?thesis by simp
qed

text \<open>
  C2. After a reset, along any sequence of \<open>timeout\<close> successful \<open>step\<close> calls whose
  visited states are all non-terminal, \<open>done()\<close> after the \<open>k\<close>-th call (and the flag
  that call returned) is true exactly when \<open>k\<close> equals the timeout: false after each of
  the first \<open>timeout - 1\<close> calls, true after the last.
\<close>
theorem done_exactly_at_timeout:
  assumes "10 < timeout m"
    and "reset m uniform x0 = Inr (s0, m0)"
    and "run m0 calls = Inr (results, m')"
    and "int (length calls) = timeout m"
    and "\<forall>res \<in> set results. next_state res \<notin> set (terminal_states m)"
  shows "\<forall>k. 0 < k \<and> k \<le> length calls \<longrightarrow>
           (\<exists>mk. run m0 (take k calls) = Inr (take k results, mk) \<and>
                 fst (done mk) = (int k = timeout m) \<and>
                 done_flag (results ! (k - 1)) = (int k = timeout m))"
proof (intro allI impI)
  fix k
  assume "0 < k \<and> k \<le> length calls"
  then have k: "0 < k" "k \<le> length calls" by simp_all
  from assms(2) have m0: "timestep m0 = 0" "timeout m0 = timeout m"
    "terminal_states m0 = terminal_states m"
    by (auto simp: reset_Inr_iff)
  from run_frame [OF assms(3)] have len: "length results = length calls" by simp
  from assms(3) have "run m0 (take k calls @ drop k calls) = Inr (results, m')" by simp
  from run_prefix [OF this] k obtain mk where
    rk: "run m0 (take k calls) = Inr (take k results, mk)"
    by (auto simp: min_def)
  from k have ne: "take k calls \<noteq> []" by auto
  from run_frame [OF rk] k m0 have fr: "timestep mk = int k" "timeout mk = timeout m"
    "terminal_states mk = terminal_states m"
    by (auto simp: min_def)
  from k len have "take k results \<noteq> []" by auto
  then have "last (take k results) = take k results ! (length (take k results) - 1)"
    by (rule last_conv_nth)
  with k len have lt: "last (take k results) = results ! (k - 1)"
    by (auto simp: min_def)
  from k len have "results ! (k - 1) \<in> set results" by simp
  with assms(5) have nt: "next_state (results ! (k - 1)) \<notin> set (terminal_states m)" by blast
  from run_end [OF rk ne] lt have
    cs: "current_state mk = Some (next_state (results ! (k - 1)))"
    and df: "done_flag (results ! (k - 1)) = fst (done mk)"
    by simp_all
  have "fst (done mk) = (int k = timeout m)"
    using cs nt fr by (simp add: done_fst)
  with rk df show "\<exists>mk. run m0 (take k calls) = Inr (take k results, mk) \<and>
                 fst (done mk) = (int k = timeout m) \<and>
                 done_flag (results ! (k - 1)) = (int k = timeout m)"
    by blast
qed

theorem done_exactly_at_timeout_witness:
  "(10 :: int) < timeout (maze 11 0 None)
   \<and> reset (maze 11 0 None) False (1/4) = Inr (0, maze 11 0 (Some 0))
   \<and> run (maze 11 0 (Some 0)) (replicate 11 (0, 0, 0, 1/4))
       = Inr (stay_results 11 0 11, maze 11 11 (Some 0))
   \<and> map next_state (stay_results 11 0 11) = replicate 11 0
   \<and> terminal_states (maze 11 0 None) = [2]
   \<and> (\<exists>mk. run (maze 11 0 (Some 0)) (replicate 10 (0, 0, 0, 1/4))
              = Inr (take 10 (stay_results 11 0 11), mk) \<and> \<not> fst (done mk))
   \<and> (\<exists>mk. run (maze 11 0 (Some 0)) (replicate 11 (0, 0, 0, 1/4))
              = Inr (stay_results 11 0 11, mk) \<and> fst (done mk))"
proof -
  have h1: "(10 :: int) < timeout (maze 11 0 None)" by (simp add: maze_def)
  have h2: "reset (maze 11 0 None) False (1/4) = Inr (0, maze 11 0 (Some 0))"
    by (rule maze_reset)
  have h3: "run (maze 11 0 (Some 0)) (replicate 11 (0, 0, 0, 1/4))
       = Inr (stay_results 11 0 11, maze 11 11 (Some 0))"
    using maze_run_stay [of 11 0 11] by simp
  have h4: "int (length (replicate 11 (0 :: int, 0 :: real, 0 :: real, 1/4 :: real)))
       = timeout (maze 11 0 None)"
    by (simp add: maze_def)
  have h5: "\<forall>res \<in> set (stay_results 11 0 11).
       next_state res \<notin> set (terminal_states (maze 11 0 None))"
    by (auto simp: maze_def dest: stay_results_next_state)
  have T: "timeout (maze 11 0 None) = 11" by (simp add: maze_def)
  note inst = done_exactly_at_timeout [OF h1 h2 h3 h4 h5, rule_format]
  from inst [of 10] have a:
    "\<exists>mk. run (maze 11 0 (Some 0)) (replicate 10 (0, 0, 0, 1/4))
              = Inr (take 10 (stay_results 11 0 11), mk) \<and> \<not> fst (done mk)"
    by (auto simp: T)
  from inst [of 11] have b:
    "\<exists>mk. run (maze 11 0 (Some 0)) (replicate 11 (0, 0, 0, 1/4))
              = Inr (stay_results 11 0 11, mk) \<and> fst (done mk)"
    by (auto simp: T length_stay_results)
  have h6: "map next_state (stay_results 11 0 11) = replicate 11 0"
    by (rule map_next_state_stay_results)
  have h7: "terminal_states (maze 11 0 None) = [2]" by (simp add: maze_def)
  from h1 h2 h3 h6 h7 a b show ?thesis by blast
qed

text \<open>
  C3. \<open>reset(uniform=True)\<close> hands the sampler the vector of \<open>nb_states - 1\<close> weights
  \<open>1 / (nb_states - 1)\<close>, so every state it returns lies in \<open>[0, nb_states - 2]\<close> and
  is never \<open>nb_states - 1\<close>; with at least two states it does return one.
  \<open>reset(uniform=False)\<close> returns what the sampler draws from \<open>P0\<close>, and returns
  whenever \<open>P0\<close> is not empty.
\<close>
theorem reset_uniform_excludes_last_state:
  "(reset m True x = Inr (s, m') \<longrightarrow>
      discreteProb (replicate (nat (nb_states m - 1)) (1 / real_of_int (nb_states m - 1))) x
        = Inr s \<and>
      int s \<le> nb_states m - 2 \<and> int s \<noteq> nb_states m - 1)
   \<and> (2 \<le> nb_states m \<longrightarrow> (\<exists>s1 m1. reset m True x = Inr (s1, m1)))
   \<and> (reset m False x = Inr (s, m') \<longrightarrow> discreteProb (P0 m) x = Inr s)
   \<and> (P0 m \<noteq> [] \<longrightarrow> (\<exists>s1 m1. reset m False x = Inr (s1, m1)))"
proof (intro conjI impI)
  assume a: "reset m True x = Inr (s, m')"
  then have n: "0 \<le> nb_states m - 1" and
    d: "discreteProb (replicate (nat (nb_states m - 1)) (1 / real_of_int (nb_states m - 1))) x
          = Inr s"
    by (auto simp: reset_Inr_iff ones_over_Inr_iff)
  from discreteProb_range [OF d] have lt: "s < nat (nb_states m - 1)" by simp
  show "discreteProb (replicate (nat (nb_states m - 1)) (1 / real_of_int (nb_states m - 1))) x
          = Inr s" by (rule d)
  from lt show "int s \<le> nb_states m - 2" by linarith
  from lt show "int s \<noteq> nb_states m - 1" by linarith
next
  assume "2 \<le> nb_states m"
  then have "replicate (nat (nb_states m - 1)) (1 / real_of_int (nb_states m - 1)) \<noteq> []"
    and "0 \<le> nb_states m - 1"
    by auto
  with discreteProb_total [of "replicate (nat (nb_states m - 1)) (1 / real_of_int (nb_states m - 1))" x]
  show "\<exists>s1 m1. reset m True x = Inr (s1, m1)"
    by (auto simp: reset_Inr_iff ones_over_Inr_iff)
next
  assume "reset m False x = Inr (s, m')"
  then show "discreteProb (P0 m) x = Inr s" by (simp add: reset_Inr_iff)
next
  assume "P0 m \<noteq> []"
  from discreteProb_total [OF this, of x]
  show "\<exists>s1 m1. reset m False x = Inr (s1, m1)"
    by (auto simp: reset_Inr_iff)
qed

theorem reset_uniform_excludes_last_state_witness:
  "reset (maze 11 0 None) True (7/10) = Inr (1, maze 11 0 (Some 1))
   \<and> discreteProb [1/2, 1/2] (7/10) = Inr 1
   \<and> nb_states (maze 11 0 None) = 3
   \<and> (\<exists>s1 m1. reset (maze 11 0 None) True (7/10) = Inr (s1, m1))
   \<and> reset (maze 11 0 None) False (1/4) = Inr (0, maze 11 0 (Some 0))
   \<and> discreteProb (P0 (maze 11 0 None)) (1/4) = Inr 0
   \<and> P0 (maze 11 0 None) \<noteq> []
   \<and> (\<exists>s1 m1. reset (maze 11 0 None) False (1/4) = Inr (s1, m1))"
proof -
  have h1: "reset (maze 11 0 None) True (7/10) = Inr (1, maze 11 0 (Some 1))"
    by (rule maze_reset_uniform)
  have h2: "reset (maze 11 0 None) False (1/4) = Inr (0, maze 11 0 (Some 0))"
    by (rule maze_reset)
  have n: "nb_states (maze 11 0 None) = 3" and p: "P0 (maze 11 0 None) \<noteq> []"
    by (simp_all add: maze_def)
  from reset_uniform_excludes_last_state [of "maze 11 0 None" "7/10" 1 "maze 11 0 (Some 1)"]
    h1 n
  have a: "discreteProb [1/2, 1/2] (7/10) = Inr 1
     \<and> (\<exists>s1 m1. reset (maze 11 0 None) True (7/10) = Inr (s1, m1))"
    by (simp add: numeral_2_eq_2)
  from reset_uniform_excludes_last_state [of "maze 11 0 None" "1/4" 0 "maze 11 0 (Some 0)"]
    h2 p
  have b: "discreteProb (P0 (maze 11 0 None)) (1/4) = Inr 0
     \<and> (\<exists>s1 m1. reset (maze 11 0 None) False (1/4) = Inr (s1, m1))"
    by simp
  from h1 h2 n p a b show ?thesis by simp
qed

text \<open>
  C4. From a state \<open>s\<close> with an action \<open>u\<close> inside the tables, \<open>step(u, deviation=0)\<close>
  returns, its reward is exactly the table entry \<open>r[s, u]\<close> whatever the normal draw
  \<open>z\<close> is, and the noise it reports is zero.
\<close>
theorem step_reward_without_noise:
  assumes "current_state m = Some s"
    and "index2 (r m) s u = Inr ru"
    and "index2 (P m) s u = Inr row"
    and "row \<noteq> []"
  shows "\<exists>res m'. step m u 0 z x = Inr (res, m') \<and> reward res = Array0 ru \<and>
           noise_value (info res) = 0 \<and>
           (0 \<le> u \<longrightarrow> reward res = Array0 (r m ! s ! nat u))"
proof -
  from discreteProb_total [OF assms(4), of x] obtain ns where
    ns: "discreteProb row x = Inr ns" ..
  from assms(2) have "0 \<le> u \<longrightarrow> ru = r m ! s ! nat u"
    by (auto simp: index2_def np_index_def split: if_splits)
  with assms(1,2,3) ns show ?thesis
    by (simp add: step_Inr_iff)
qed

theorem step_reward_without_noise_witness:
  "current_state (maze 11 0 (Some 1)) = Some 1
   \<and> index2 (r (maze 11 0 (Some 1))) 1 1 = Inr 1
   \<and> index2 (P (maze 11 0 (Some 1))) 1 1 = Inr [0, 0, 1]
   \<and> (\<exists>res m'. step (maze 11 0 (Some 1)) 1 0 5 (1/4) = Inr (res, m') \<and> reward res = Array0 1
        \<and> noise_value (info res) = 0
        \<and> reward res = Array0 (r (maze 11 0 (Some 1)) ! 1 ! 1))"
proof -
  have h1: "current_state (maze 11 0 (Some 1)) = Some 1" by (simp add: maze_def)
  have h2: "index2 (r (maze 11 0 (Some 1))) 1 1 = Inr 1"
    by (simp add: maze_def maze_r_def index2_def np_index_def)
  have h3: "index2 (P (maze 11 0 (Some 1))) 1 1 = Inr [0, 0, 1]"
    by (simp add: maze_def maze_P_def index2_def np_index_def)
  have h4: "[0, 0, 1 :: real] \<noteq> []" by simp
  from step_reward_without_noise [OF h1 h2 h3 h4, of 5 "1/4"] h1 h2 h3
  show ?thesis by simp
qed

text \<open>
  C5. Construction fails with an exception, producing no engine, when the timeout is at
  most 10, and succeeds with that timeout, timestep 0 and no current state when the
  timeout is greater than 10.
\<close>
theorem init_fails_unless_timeout_above_10:
  "(T \<le> 10 \<longrightarrow> Mdp_init n sp p0 pm rm pl g ts T hs = Inl TypeError)
   \<and> (10 < T \<longrightarrow>
        (\<exists>m. Mdp_init n sp p0 pm rm pl g ts T hs = Inr m \<and> timeout m = T \<and>
             timestep m = 0 \<and> current_state m = None))"
  by (simp add: Mdp_init_def)

theorem init_fails_unless_timeout_above_10_witness:
  "Mdp_init 3 (SimpleActionSpace_init None 2) [1, 0, 0] maze_P maze_r () (9/10) (Some [2]) 10 True
     = (Inl TypeError :: error + (unit, unit) Mdp)
   \<and> (\<exists>m :: (unit, unit) Mdp.
        Mdp_init 3 (SimpleActionSpace_init None 2) [1, 0, 0] maze_P maze_r () (9/10) (Some [2]) 11 True
          = Inr m \<and> timeout m = 11 \<and> timestep m = 0 \<and> current_state m = None)"
  using init_fails_unless_timeout_above_10
          [of 10 3 "SimpleActionSpace_init None 2 :: unit SimpleActionSpace" "[1, 0, 0]"
              maze_P maze_r "()" "9/10" "Some [2]" True]
        init_fails_unless_timeout_above_10
          [of 11 3 "SimpleActionSpace_init None 2 :: unit SimpleActionSpace" "[1, 0, 0]"
              maze_P maze_r "()" "9/10" "Some [2]" True]
  by simp



text \<open>
  C7. The agent state that \<open>render\<close> forwards follows the branch priority: none if
  \<open>has_state\<close> is false; else the given \<open>agent_pos\<close>; else the \<open>current_state\<close>,
  and only then the policy array is forwarded too; else neither argument is passed. On
  an engine just constructed with \<open>has_state = True\<close>, \<open>render()\<close> calls the renderer
  without an agent-state argument and without a policy.
\<close>
theorem render_branch_priority:
  "forwarded_agent_state
     (render m (v :: 'v list option) (policy :: 'q list option) (agent_pos :: 'p option)
        title mode) =
     (if \<not> has_state m then None
      else if agent_pos \<noteq> None then Some (Position (the agent_pos))
      else if current_state m \<noteq> None then Some (StateIndex (the (current_state m)))
      else None)
   \<and> forwarded_policy (render m v policy agent_pos title mode) =
     (if has_state m \<and> agent_pos = None \<and> current_state m \<noteq> None
      then Some (case policy of None \<Rightarrow> [] | Some p \<Rightarrow> p) else None)
   \<and> (has_state m \<and> agent_pos = None \<and> current_state m = None \<longrightarrow>
        agent_state_arg (render m v policy agent_pos title mode) = Omitted \<and>
        policy_arg (render m v policy agent_pos title mode) = Omitted)
   \<and> (Mdp_init n sp p0 pm rm pl g ts T True = Inr m0 \<longrightarrow>
        agent_state_arg (render m0 (None :: 'v list option) (None :: 'q list option) (None :: 'p option)
           title mode) = Omitted \<and>
        policy_arg (render m0 (None :: 'v list option) (None :: 'q list option) (None :: 'p option)
           title mode) = Omitted)"
proof (intro conjI impI)
  show "forwarded_agent_state (render m v policy agent_pos title mode) =
     (if \<not> has_state m then None
      else if agent_pos \<noteq> None then Some (Position (the agent_pos))
      else if current_state m \<noteq> None then Some (StateIndex (the (current_state m)))
      else None)"
    by (simp add: render_def forwarded_agent_state_def Let_def)
  show "forwarded_policy (render m v policy agent_pos title mode) =
     (if has_state m \<and> agent_pos = None \<and> current_state m \<noteq> None
      then Some (case policy of None \<Rightarrow> [] | Some p \<Rightarrow> p) else None)"
    by (simp add: render_def forwarded_policy_def Let_def)
next
  assume "has_state m \<and> agent_pos = None \<and> current_state m = None"
  then show "agent_state_arg (render m v policy agent_pos title mode) = Omitted"
    "policy_arg (render m v policy agent_pos title mode) = Omitted"
    by (simp_all add: render_def Let_def)
next
  assume "Mdp_init n sp p0 pm rm pl g ts T True = Inr m0"
  then have "has_state m0" "current_state m0 = None"
    by (auto simp: Mdp_init_def split: if_splits)
  then show "agent_state_arg (render m0 (None :: 'v list option) (None :: 'q list option) (None :: 'p option)
           title mode) = Omitted"
    "policy_arg (render m0 (None :: 'v list option) (None :: 'q list option) (None :: 'p option)
           title mode) = Omitted"
    by (simp_all add: render_def Let_def)
qed

theorem render_branch_priority_witness:
  "has_state (maze 11 0 None) \<and> current_state (maze 11 0 None) = None
   \<and> agent_state_arg
        (render (maze 11 0 None) (None :: real list option) (None :: int list option)
           (None :: nat option) ''No Title'' ''legacy'') = Omitted
   \<and> policy_arg
        (render (maze 11 0 None) (None :: real list option) (None :: int list option)
           (None :: nat option) ''No Title'' ''legacy'') = Omitted
   \<and> Mdp_init 3 (SimpleActionSpace_init None 2) [1, 0, 0] maze_P maze_r () (9/10) (Some [2]) 11 True
        = Inr (maze 11 0 None)
   \<and> forwarded_agent_state
        (render (maze 11 3 (Some 1)) (None :: real list option) (Some [0, 1, 1 :: int])
           (None :: nat option) ''No Title'' ''legacy'') = Some (StateIndex 1)"
proof -
  have h: "has_state (maze 11 0 None) \<and> current_state (maze 11 0 None) = None"
    by (simp add: maze_def)
  have c: "has_state (maze 11 3 (Some 1)) \<and> current_state (maze 11 3 (Some 1)) = Some 1"
    by (simp add: maze_def)
  from render_branch_priority
    [of "maze 11 0 None" "None :: real list option" "None :: int list option"
        "None :: nat option" "''No Title''" "''legacy''"
        3 "SimpleActionSpace_init None 2" "[1, 0, 0]" maze_P maze_r "()" "9/10" "Some [2]" 11
        "maze 11 0 None"] h maze_init
  have a: "agent_state_arg
        (render (maze 11 0 None) (None :: real list option) (None :: int list option)
           (None :: nat option) ''No Title'' ''legacy'') = Omitted
   \<and> policy_arg
        (render (maze 11 0 None) (None :: real list option) (None :: int list option)
           (None :: nat option) ''No Title'' ''legacy'') = Omitted"
    by simp
  from render_branch_priority
    [of "maze 11 3 (Some 1)" "None :: real list option" "Some [0, 1, 1 :: int]"
        "None :: nat option" "''No Title''" "''legacy''", THEN conjunct1] c
  have b: "forwarded_agent_state
        (render (maze 11 3 (Some 1)) (None :: real list option) (Some [0, 1, 1 :: int])
           (None :: nat option) ''No Title'' ''legacy'') = Some (StateIndex 1)"
    by simp
  from h a b maze_init show ?thesis by simp
qed

text \<open>
  C8. On a non-empty action space whose \<open>size\<close> is the number of its actions,
  \<open>sample()\<close> without \<open>prob_list\<close> gives the sampler one weight \<open>1 / size\<close> per
  action and returns the action at the index drawn; every index below \<open>size\<close> selects
  a member of the action sequence, and so the value returned is a member of it, whatever
  the type of the identifiers.
\<close>
theorem sample_uniform_returns_member:
  assumes "size' sp = int (length (actions sp))"
    and "actions sp \<noteq> []"
  shows "sample sp None x =
           (case discreteProb (replicate (length (actions sp))
                                 (1 / real (length (actions sp)))) x of
              Inl e \<Rightarrow> Inl e
            | Inr index \<Rightarrow> getitem (actions sp) index)
         \<and> (\<forall>index < length (actions sp). getitem (actions sp) index \<in> Inr ` set (actions sp))
         \<and> sample sp None x \<in> Inr ` set (actions sp)"
proof -
  let ?w = "replicate (length (actions sp)) (1 / real (length (actions sp)))"
  have s: "sample sp None x =
           (case discreteProb ?w x of Inl e \<Rightarrow> Inl e | Inr index \<Rightarrow> getitem (actions sp) index)"
    by (simp add: sample_def ones_over_def assms(1))
  from assms(2) have "?w \<noteq> []" by simp
  from discreteProb_total [OF this, of x] obtain i where i: "discreteProb ?w x = Inr i" ..
  from discreteProb_range [OF i] have "i < length (actions sp)" by simp
  then have "getitem (actions sp) i \<in> Inr ` set (actions sp)" by (rule getitem_member)
  with s i have "sample sp None x \<in> Inr ` set (actions sp)" by simp
  with s show ?thesis by (simp add: getitem_member)
qed

theorem sample_uniform_returns_member_witness:
  "size' compass = int (length (actions compass))
   \<and> actions compass = [Listed ''north'', Listed ''south'', Listed ''east'']
   \<and> sample compass None (1/2) = Inr (Listed ''south'')
   \<and> sample compass None (1/2) \<in> Inr ` set (actions compass)"
proof -
  have h1: "size' compass = int (length (actions compass))" by (simp add: compass_fields)
  have h2: "actions compass \<noteq> []" by (simp add: compass_fields)
  have d: "discreteProb [1/3, 1/3, 1/3] (1/2) = Inr 1" by (simp add: discreteProb_def)
  from sample_uniform_returns_member [OF h1 h2, of "1/2"] d
  have "sample compass None (1/2) = Inr (Listed ''south'')
        \<and> sample compass None (1/2) \<in> Inr ` set (actions compass)"
    by (simp add: compass_fields numeral_3_eq_3 getitem_def)
  with h1 show ?thesis by (simp add: compass_fields)
qed

text \<open>
  C9. A \<open>step\<close> call that returns, on an engine that has been reset or on one fresh
  from the constructor, leaves every field of the engine other than \<open>timestep\<close> and
  \<open>current_state\<close> as it was, in particular the transition tensor, the reward table, the
  start distribution, the number of states, the discount, the terminal states, the
  timeout, the action space and the \<open>has_state\<close> flag; \<open>done\<close> changes nothing. Such
  calls exist in both situations: \<open>step\<close> returns whenever the action indexes the tables
  and the weights handed to the sampler are not empty.
\<close>
theorem step_and_done_keep_configuration:
  "(step m u deviation z x = Inr (res, m') \<longrightarrow>
      m' = m\<lparr>timestep := timestep m', current_state := current_state m'\<rparr> \<and>
      P m' = P m \<and> r m' = r m \<and> P0 m' = P0 m \<and> nb_states m' = nb_states m \<and>
      gamma m' = gamma m \<and> terminal_states m' = terminal_states m \<and>
      timeout m' = timeout m \<and> action_space m' = action_space m \<and>
      has_state m' = has_state m)
   \<and> snd (done m) = m
   \<and> (current_state m = Some s0 \<and> index2 (r m) s0 u = Inr ru \<and>
        index2 (P m) s0 u = Inr row0 \<and> row0 \<noteq> [] \<longrightarrow>
        (\<exists>res1 m1. step m u deviation z x = Inr (res1, m1)))
   \<and> (current_state m = None \<and> index_newaxis (r m) u = Inr rows \<and>
        index_newaxis (P m) u = Inr block \<and> concat (concat block) \<noteq> [] \<longrightarrow>
        (\<exists>res1 m1. step m u deviation z x = Inr (res1, m1)))"
proof (intro conjI impI)
  assume "step m u deviation z x = Inr (res, m')"
  from step_frame [OF this]
  have m': "m' = m\<lparr>timestep := timestep m + 1, current_state := Some (next_state res)\<rparr>" .
  show "m' = m\<lparr>timestep := timestep m', current_state := current_state m'\<rparr>"
    by (subst (1 2 3) m') simp
  show "P m' = P m" "r m' = r m" "P0 m' = P0 m" "nb_states m' = nb_states m"
    "gamma m' = gamma m" "terminal_states m' = terminal_states m" "timeout m' = timeout m"
    "action_space m' = action_space m" "has_state m' = has_state m"
    by (simp_all add: m')
next
  show "snd (done m) = m" by (rule done_snd)
next
  assume "current_state m = Some s0 \<and> index2 (r m) s0 u = Inr ru \<and>
        index2 (P m) s0 u = Inr row0 \<and> row0 \<noteq> []"
  then show "\<exists>res1 m1. step m u deviation z x = Inr (res1, m1)"
    by (blast intro: step_returns_after_reset)
next
  assume "current_state m = None \<and> index_newaxis (r m) u = Inr rows \<and>
        index_newaxis (P m) u = Inr block \<and> concat (concat block) \<noteq> []"
  then show "\<exists>res1 m1. step m u deviation z x = Inr (res1, m1)"
    by (blast intro: step_returns_before_reset)
qed

theorem step_and_done_keep_configuration_witness:
  "step (maze 11 0 (Some 1)) 1 0 0 (1/4) =
     Inr (\<lparr>next_state = 2, reward = Array0 1, done_flag = True,
           info = \<lparr>transition_probabilities = Array1 [0, 0, 1], noise_value = 0\<rparr>\<rparr>,
          maze 11 1 (Some 2))
   \<and> P (maze 11 1 (Some 2)) = P (maze 11 0 (Some 1))
   \<and> r (maze 11 1 (Some 2)) = r (maze 11 0 (Some 1))
   \<and> P0 (maze 11 1 (Some 2)) = P0 (maze 11 0 (Some 1))
   \<and> timeout (maze 11 1 (Some 2)) = timeout (maze 11 0 (Some 1))
   \<and> terminal_states (maze 11 1 (Some 2)) = terminal_states (maze 11 0 (Some 1))
   \<and> snd (done (maze 11 1 (Some 2))) = maze 11 1 (Some 2)
   \<and> Mdp_init 3 (SimpleActionSpace_init None 2) [1, 0, 0] maze_P maze_r () (9/10) (Some [2]) 11 True
        = Inr (maze 11 0 None)
   \<and> current_state (maze 11 0 None) = None
   \<and> index_newaxis (r (maze 11 0 None)) 0 = Inr [[0, 1/4]]
   \<and> index_newaxis (P (maze 11 0 None)) 0 = Inr [[[1/2, 1/2, 0], [0, 1, 0]]]
   \<and> step (maze 11 0 None) 0 0 0 (7/10) =
     Inr (\<lparr>next_state = 1, reward = Array2 [[0, 1/4]], done_flag = False,
           info = \<lparr>transition_probabilities = Array3 [[[1/2, 1/2, 0], [0, 1, 0]]],
                   noise_value = 0\<rparr>\<rparr>,
          (maze 11 0 None)\<lparr>timestep := 1, current_state := Some 1\<rparr>)
   \<and> P ((maze 11 0 None)\<lparr>timestep := 1, current_state := Some 1\<rparr>) = P (maze 11 0 None)
   \<and> r ((maze 11 0 None)\<lparr>timestep := 1, current_state := Some 1\<rparr>) = r (maze 11 0 None)
   \<and> timeout ((maze 11 0 None)\<lparr>timestep := 1, current_state := Some 1\<rparr>)
        = timeout (maze 11 0 None)
   \<and> (\<exists>res1 m1. step (maze 11 0 None) 0 0 0 (7/10) = Inr (res1, m1))"
proof -
  have h: "step (maze 11 0 (Some 1)) 1 0 0 (1/4) =
     Inr (\<lparr>next_state = 2, reward = Array0 1, done_flag = True,
           info = \<lparr>transition_probabilities = Array1 [0, 0, 1], noise_value = 0\<rparr>\<rparr>,
          maze 11 1 (Some 2))"
    using maze_step_go [of 11 0 0 0] by simp
  from step_and_done_keep_configuration [of "maze 11 0 (Some 1)" 1 0 0 "1/4"
      "\<lparr>next_state = 2, reward = Array0 1, done_flag = True,
           info = \<lparr>transition_probabilities = Array1 [0, 0, 1], noise_value = 0\<rparr>\<rparr>"
      "maze 11 1 (Some 2)", THEN conjunct1] h
  have a: "P (maze 11 1 (Some 2)) = P (maze 11 0 (Some 1))
   \<and> r (maze 11 1 (Some 2)) = r (maze 11 0 (Some 1))
   \<and> P0 (maze 11 1 (Some 2)) = P0 (maze 11 0 (Some 1))
   \<and> timeout (maze 11 1 (Some 2)) = timeout (maze 11 0 (Some 1))
   \<and> terminal_states (maze 11 1 (Some 2)) = terminal_states (maze 11 0 (Some 1))"
    by simp
  have b: "snd (done (maze 11 1 (Some 2))) = maze 11 1 (Some 2)"
    using step_and_done_keep_configuration [of "maze 11 1 (Some 2)" 1 0 0 "1/4",
        THEN conjunct2, THEN conjunct1] .
  have f1: "current_state (maze 11 0 None) = None" by (simp add: maze_def)
  have f2: "index_newaxis (r (maze 11 0 None)) 0 = Inr [[0, 1/4]]"
    by (simp add: maze_def maze_r_def index_newaxis_def np_index_def)
  have f3: "index_newaxis (P (maze 11 0 None)) 0 = Inr [[[1/2, 1/2, 0], [0, 1, 0]]]"
    by (simp add: maze_def maze_P_def index_newaxis_def np_index_def)
  have f4: "concat (concat [[[1/2, 1/2, 0], [0, 1, 0 :: real]]]) \<noteq> []" by simp
  note inst = step_and_done_keep_configuration [of "maze 11 0 None" 0 0 0 "7/10"
      "\<lparr>next_state = 1, reward = Array2 [[0, 1/4]], done_flag = False,
           info = \<lparr>transition_probabilities = Array3 [[[1/2, 1/2, 0], [0, 1, 0]]],
                   noise_value = 0\<rparr>\<rparr>"
      "(maze 11 0 None)\<lparr>timestep := 1, current_state := Some 1\<rparr>"
      _ _ _ "[[0, 1/4]]" "[[[1/2, 1/2, 0], [0, 1, 0]]]"]
  from inst [THEN conjunct1] maze_step_fresh
  have c: "P ((maze 11 0 None)\<lparr>timestep := 1, current_state := Some 1\<rparr>) = P (maze 11 0 None)
   \<and> r ((maze 11 0 None)\<lparr>timestep := 1, current_state := Some 1\<rparr>) = r (maze 11 0 None)
   \<and> timeout ((maze 11 0 None)\<lparr>timestep := 1, current_state := Some 1\<rparr>)
        = timeout (maze 11 0 None)"
    by simp
  from inst [THEN conjunct2, THEN conjunct2, THEN conjunct2] f1 f2 f3 f4
  have d: "\<exists>res1 m1. step (maze 11 0 None) 0 0 0 (7/10) = Inr (res1, m1)"
    by simp
  from h a b maze_init f1 f2 f3 maze_step_fresh c d show ?thesis by simp
qed

text \<open>
  C10. When the caller has stepped more often than the timeout since the last reset, the
  timestep is strictly greater than the timeout and \<open>done()\<close> is false again whenever
  the current state is not terminal: the test is an equality.
\<close>
theorem not_done_past_timeout:
  assumes "10 < timeout m"
    and "reset m uniform x0 = Inr (s0, m0)"
    and "run m0 calls = Inr (results, m')"
    and "timeout m < int (length calls)"
    and "current_state m' = Some s"
    and "s \<notin> set (terminal_states m)"
  shows "timeout m' < timestep m' \<and> \<not> fst (done m') \<and> \<not> done_flag (last results)"
proof -
  from assms(2) have m0: "timestep m0 = 0" "timeout m0 = timeout m"
    "terminal_states m0 = terminal_states m"
    by (auto simp: reset_Inr_iff)
  from assms(1,4) have ne: "calls \<noteq> []" by auto
  from run_frame [OF assms(3)] m0 have fr: "timestep m' = int (length calls)"
    "timeout m' = timeout m" "terminal_states m' = terminal_states m"
    by simp_all
  have nd: "\<not> fst (done m')"
    using assms(4,5,6) fr by (simp add: done_fst)
  from run_end [OF assms(3) ne] have "done_flag (last results) = fst (done m')" by simp
  with nd fr assms(4) show ?thesis by simp
qed

theorem not_done_past_timeout_witness:
  "(10 :: int) < timeout (maze 11 0 None)
   \<and> reset (maze 11 0 None) False (1/4) = Inr (0, maze 11 0 (Some 0))
   \<and> run (maze 11 0 (Some 0)) (replicate 12 (0, 0, 0, 1/4))
       = Inr (stay_results 11 0 12, maze 11 12 (Some 0))
   \<and> current_state (maze 11 12 (Some 0)) = Some 0
   \<and> 0 \<notin> set (terminal_states (maze 11 0 None))
   \<and> timeout (maze 11 12 (Some 0)) < timestep (maze 11 12 (Some 0))
   \<and> \<not> fst (done (maze 11 12 (Some 0)))
   \<and> \<not> done_flag (last (stay_results 11 0 12))"
proof -
  have h1: "(10 :: int) < timeout (maze 11 0 None)" by (simp add: maze_def)
  have h2: "reset (maze 11 0 None) False (1/4) = Inr (0, maze 11 0 (Some 0))"
    by (rule maze_reset)
  have h3: "run (maze 11 0 (Some 0)) (replicate 12 (0, 0, 0, 1/4))
       = Inr (stay_results 11 0 12, maze 11 12 (Some 0))"
    using maze_run_stay [of 11 0 12] by simp
  have h4: "timeout (maze 11 0 None)
       < int (length (replicate 12 (0 :: int, 0 :: real, 0 :: real, 1/4 :: real)))"
    by (simp add: maze_def)
  have h5: "current_state (maze 11 12 (Some 0)) = Some 0" by (simp add: maze_def)
  have h6: "0 \<notin> set (terminal_states (maze 11 0 None))" by (simp add: maze_def)
  from not_done_past_timeout [OF h1 h2 h3 h4 h5 h6] h1 h2 h3 h5 h6
  show ?thesis by simp
qed

end
